theory Spec2Isabelle
  imports Complex_Main "HOL-Library.Char_ord" "HOL-Library.List_Lexorder" "HOL-Library.Multiset"
begin

section \<open>Values of the scripting language\<close>

text \<open>
  The comparator and the group builder of \<^verbatim>\<open>scripts/ctg.js\<close> work on dynamically
  typed values. A number is a double; the code only ever tests the sign of a difference, a
  value for being zero and two values for their order, and on finite doubles these tests
  agree with exact arithmetic, so a finite number is an exact rational here.
\<close>

datatype number = NaN | NegInf | Fin rat | PosInf

datatype jsval =
    Undefined
  | Null
  | Bool bool
  | Num number
  | Str string
  | Arr "jsval list"
  | Obj "(string \<times> jsval) list"

datatype error = InvalidModeError string | TypeError

text \<open>Sequencing of a computation that may throw.\<close>

definition bindE :: "error + 'a \<Rightarrow> ('a \<Rightarrow> error + 'b) \<Rightarrow> error + 'b" where
  "bindE m f = (case m of Inl e \<Rightarrow> Inl e | Inr x \<Rightarrow> f x)"

text \<open>\<^verbatim>\<open>x - y\<close> on numbers.\<close>

fun num_sub :: "number \<Rightarrow> number \<Rightarrow> number" where
  "num_sub NaN y = NaN"
| "num_sub x NaN = NaN"
| "num_sub (Fin x) (Fin y) = Fin (x - y)"
| "num_sub (Fin x) PosInf = NegInf"
| "num_sub (Fin x) NegInf = PosInf"
| "num_sub PosInf PosInf = NaN"
| "num_sub PosInf y = PosInf"
| "num_sub NegInf NegInf = NaN"
| "num_sub NegInf y = NegInf"

text \<open>\<^verbatim>\<open>x > y\<close> on numbers: false as soon as one side is NaN.\<close>

fun num_gt :: "number \<Rightarrow> number \<Rightarrow> bool" where
  "num_gt NaN y = False"
| "num_gt x NaN = False"
| "num_gt (Fin x) (Fin y) = (y < x)"
| "num_gt PosInf PosInf = False"
| "num_gt PosInf y = True"
| "num_gt x PosInf = False"
| "num_gt NegInf y = False"
| "num_gt (Fin x) NegInf = True"

text \<open>Truthiness of a number: zero and NaN are falsy.\<close>

fun num_truthy :: "number \<Rightarrow> bool" where
  "num_truthy NaN = False"
| "num_truthy (Fin x) = (x \<noteq> 0)"
| "num_truthy PosInf = True"
| "num_truthy NegInf = True"

text \<open>\<^verbatim>\<open>typeof v === "boolean"\<close>, \<^verbatim>\<open>typeof v === "object"\<close> (which holds of null and of
  arrays too) and \<^verbatim>\<open>typeof v === "string"\<close>.\<close>

fun isBoolean :: "jsval \<Rightarrow> bool" where
  "isBoolean (Bool b) = True"
| "isBoolean v = False"

fun isObject :: "jsval \<Rightarrow> bool" where
  "isObject Null = True"
| "isObject (Arr xs) = True"
| "isObject (Obj fs) = True"
| "isObject v = False"

fun isString :: "jsval \<Rightarrow> bool" where
  "isString (Str s) = True"
| "isString v = False"

text \<open>The characters of a value that is a string.\<close>

fun stringOf :: "jsval \<Rightarrow> string" where
  "stringOf (Str s) = s"
| "stringOf v = []"

text \<open>Truthiness of a value, as the conditional operator tests it.\<close>

fun truthy :: "jsval \<Rightarrow> bool" where
  "truthy Undefined = False"
| "truthy Null = False"
| "truthy (Bool b) = b"
| "truthy (Num n) = num_truthy n"
| "truthy (Str s) = (s \<noteq> [])"
| "truthy (Arr xs) = True"
| "truthy (Obj fs) = True"

section \<open>The host\<close>

text \<open>
  A combatant as the code reads it: its identifier, its initiative (a number or null), the
  three flags the group builder tests, and its remaining properties (name, flags, ...).
  Identifiers are unique within a combat, so equality of records stands for the identity
  of objects that \<^verbatim>\<open>indexOf\<close> tests.
\<close>

record combatant =
  cid :: string
  initiative :: "number option"
  visible :: bool
  hidden :: bool
  hasPlayerOwner :: bool
  props :: "(string \<times> jsval) list"

text \<open>
  What the code calls and this file does not define: the path resolver
  \<^verbatim>\<open>recursiveGetPropertyAsString\<close> of \<^verbatim>\<open>helpers.js\<close> (applied to a combatant, or to
  undefined when a group has no first member), the host's \<^verbatim>\<open>Number.isNumeric\<close>, and three
  operations of the language whose result depends on the engine or the locale: the
  conversion of a string to a number, the conversion of a value to a string (which also
  yields property keys), and \<^verbatim>\<open>String.prototype.localeCompare\<close>. They are parameters of
  the model.
\<close>

record host =
  recursiveGetPropertyAsString :: "combatant option \<Rightarrow> string \<Rightarrow> jsval"
  isNumeric :: "jsval \<Rightarrow> bool"
  stringToNumber :: "string \<Rightarrow> number"
  toStringJS :: "jsval \<Rightarrow> string"
  localeCompare :: "string \<Rightarrow> string \<Rightarrow> int"

text \<open>
  The state the code reads from the host's singletons: the settings of the module, the
  turns of the current combat, and, for the mob mode, whether the mob tool is active, the
  token identifiers of its mobs and the combatant of a token.
\<close>

record game =
  sortCombatantsSetting :: bool
  modeSetting :: string
  MODES :: "(string \<times> string) list"
  noGroupHidden :: bool
  noGroupPCs :: bool
  groupSkippingSetting :: bool
  isGM :: bool
  turns :: "combatant list"
  matActive :: bool
  hiddenMobList :: "string list list"
  tokenCombatant :: "string \<Rightarrow> combatant option"

section \<open>Operators of the language\<close>

text \<open>Conversion to a primitive: an array or an object becomes its string.\<close>

fun toPrimitive :: "host \<Rightarrow> jsval \<Rightarrow> jsval" where
  "toPrimitive h (Arr xs) = Str (toStringJS h (Arr xs))"
| "toPrimitive h (Obj fs) = Str (toStringJS h (Obj fs))"
| "toPrimitive h v = v"

fun toNumber :: "host \<Rightarrow> jsval \<Rightarrow> number" where
  "toNumber h Undefined = NaN"
| "toNumber h Null = Fin 0"
| "toNumber h (Bool b) = Fin (if b then 1 else 0)"
| "toNumber h (Num n) = n"
| "toNumber h (Str s) = stringToNumber h s"
| "toNumber h (Arr xs) = stringToNumber h (toStringJS h (Arr xs))"
| "toNumber h (Obj fs) = stringToNumber h (toStringJS h (Obj fs))"

text \<open>
  \<^verbatim>\<open>x > y\<close>: two strings are compared unit by unit, anything else as numbers.
\<close>

definition js_gt :: "host \<Rightarrow> jsval \<Rightarrow> jsval \<Rightarrow> bool" where
  "js_gt h x y =
     (case (toPrimitive h x, toPrimitive h y) of
        (Str s, Str t) \<Rightarrow> t < s
      | (px, py) \<Rightarrow> num_gt (toNumber h px) (toNumber h py))"

text \<open>\<^verbatim>\<open>Array.isArray(v) ? v[0] : v\<close> and \<^verbatim>\<open>v?.id\<close> on a value.\<close>

fun firstIfArray :: "jsval \<Rightarrow> jsval" where
  "firstIfArray (Arr []) = Undefined"
| "firstIfArray (Arr (x # xs)) = x"
| "firstIfArray v = v"

fun idOfValue :: "jsval \<Rightarrow> jsval" where
  "idOfValue (Obj fs) = (case map_of fs ''id'' of None \<Rightarrow> Undefined | Some v \<Rightarrow> v)"
| "idOfValue v = Undefined"

text \<open>\<^verbatim>\<open>a?.id\<close> and \<^verbatim>\<open>a?.initiative\<close> on a combatant that may be undefined.\<close>

fun idOf :: "combatant option \<Rightarrow> jsval" where
  "idOf None = Undefined"
| "idOf (Some c) = Str (cid c)"

fun initiativeOf :: "combatant option \<Rightarrow> jsval" where
  "initiativeOf None = Undefined"
| "initiativeOf (Some c) = (case initiative c of None \<Rightarrow> Null | Some n \<Rightarrow> Num n)"

text \<open>\<^verbatim>\<open>/[A-Za-z0-9]{16}/.test(s)\<close>: the string contains sixteen alphanumeric characters
  in a row. The expression has no anchors.\<close>

definition isAlnum :: "char \<Rightarrow> bool" where
  "isAlnum c =
     (let n = (of_char c :: nat)
      in (48 \<le> n \<and> n \<le> 57) \<or> (65 \<le> n \<and> n \<le> 90) \<or> (97 \<le> n \<and> n \<le> 122))"

fun alnumRun :: "nat \<Rightarrow> string \<Rightarrow> bool" where
  "alnumRun n [] = (16 \<le> n)"
| "alnumRun n (c # cs) =
     (16 \<le> n \<or> (if isAlnum c then alnumRun (Suc n) cs else alnumRun 0 cs))"

definition testId :: "string \<Rightarrow> bool" where
  "testId s = alnumRun 0 s"

text \<open>\<^verbatim>\<open>xs.indexOf(x)\<close> and \<^verbatim>\<open>xs.findIndex(p)\<close>: the first position, or -1.\<close>

fun findIndexFrom :: "int \<Rightarrow> ('a \<Rightarrow> bool) \<Rightarrow> 'a list \<Rightarrow> int" where
  "findIndexFrom i p [] = -1"
| "findIndexFrom i p (x # xs) = (if p x then i else findIndexFrom (i + 1) p xs)"

definition findIndex :: "('a \<Rightarrow> bool) \<Rightarrow> 'a list \<Rightarrow> int" where
  "findIndex p xs = findIndexFrom 0 p xs"

definition indexOf :: "'a list \<Rightarrow> 'a \<Rightarrow> int" where
  "indexOf xs x = findIndex (\<lambda>y. y = x) xs"

text \<open>The turns hold combatants only, so undefined is found nowhere.\<close>

fun turnIndexOf :: "combatant list \<Rightarrow> combatant option \<Rightarrow> int" where
  "turnIndexOf ts None = -1"
| "turnIndexOf ts (Some c) = indexOf ts c"

section \<open>The comparator\<close>

text \<open>
  \<^verbatim>\<open>Ctg.sortCombatants(a, b)\<close>. The path is that of the mode in the settings; when no mode
  of \<^verbatim>\<open>MODES\<close> has that name, \<^verbatim>\<open>find\<close> yields undefined and \<^verbatim>\<open>.slice\<close> throws. In the
  numeric branch \<^verbatim>\<open>a.id\<close> and \<^verbatim>\<open>b.id\<close> are read without \<^verbatim>\<open>?.\<close> and throw on undefined.
\<close>

definition modePath :: "game \<Rightarrow> string \<Rightarrow> string option" where
  "modePath g m = map_option snd (find (\<lambda>p. fst p = m) (MODES g))"

definition sortCombatants :: "host \<Rightarrow> game \<Rightarrow> combatant option \<Rightarrow> combatant option \<Rightarrow> error + int" where
  "sortCombatants h g a b =
    (if sortCombatantsSetting g then
       (case modePath g (modeSetting g) of
          None \<Rightarrow> Inl TypeError
        | Some path \<Rightarrow>
            (let ia = recursiveGetPropertyAsString h a path;
                 ib = recursiveGetPropertyAsString h b path
             in if isBoolean ia \<and> isBoolean ib then
                  Inr (if truthy ia then 1 else -1)
                else if isNumeric h ia \<and> isNumeric h ib then
                  (let ci = num_sub (toNumber h ib) (toNumber h ia)
                   in if ci \<noteq> Fin 0 then Inr (if num_truthy ci then 1 else -1)
                      else (case (a, b) of
                              (Some x, Some y) \<Rightarrow> Inr (if cid y < cid x then 1 else -1)
                            | _ \<Rightarrow> Inl TypeError))
                else if isObject ia \<and> isObject ib then
                  Inr (if js_gt h (idOfValue (firstIfArray ia)) (idOfValue (firstIfArray ib))
                       then 1 else -1)
                else if isString ia \<and> isString ib then
                  (if testId (stringOf ia) \<and> testId (stringOf ib) then
                     Inr (if js_gt h (initiativeOf a) (initiativeOf b) then 1 else -1)
                   else Inr (localeCompare h (stringOf ib) (stringOf ia)))
                else Inr (if js_gt h (idOf a) (idOf b) then 1 else -1)))
     else Inr (if turnIndexOf (turns g) b < turnIndexOf (turns g) a then 1 else -1))"

section \<open>Sorting\<close>

text \<open>
  \<^verbatim>\<open>Array.prototype.sort\<close> with a comparator is a builtin of the language: the comparator
  says that its first argument goes after the second by a result above zero. It is
  modelled by a stable insertion sort; a comparator that throws ends the sort. Whatever
  the comparator answers, the result holds the elements of the array, each as often as
  before.
\<close>

fun insertBy :: "('a \<Rightarrow> 'a \<Rightarrow> error + int) \<Rightarrow> 'a \<Rightarrow> 'a list \<Rightarrow> error + 'a list" where
  "insertBy cmp x [] = Inr [x]"
| "insertBy cmp x (y # ys) =
     bindE (cmp x y) (\<lambda>r.
       if 0 < r then bindE (insertBy cmp x ys) (\<lambda>zs. Inr (y # zs))
       else Inr (x # y # ys))"

fun sortBy :: "('a \<Rightarrow> 'a \<Rightarrow> error + int) \<Rightarrow> 'a list \<Rightarrow> error + 'a list" where
  "sortBy cmp [] = Inr []"
| "sortBy cmp (x # xs) = bindE (sortBy cmp xs) (insertBy cmp x)"

text \<open>On an array with holes of undefined, the sort moves them to the end and never
  passes them to the comparator.\<close>

definition arraySort :: "('a \<Rightarrow> 'a \<Rightarrow> error + int) \<Rightarrow> 'a option list \<Rightarrow> error + 'a option list" where
  "arraySort cmp xs =
     bindE (sortBy cmp (List.map_filter (\<lambda>x. x) xs))
       (\<lambda>ys. Inr (map Some ys @ filter (\<lambda>x. x = None) xs))"

text \<open>Each array of a list sorted in turn, as \<^verbatim>\<open>forEach\<close> does.\<close>

fun forEachE :: "('a \<Rightarrow> error + 'b) \<Rightarrow> 'a list \<Rightarrow> error + 'b list" where
  "forEachE f [] = Inr []"
| "forEachE f (x # xs) = bindE (f x) (\<lambda>y. bindE (forEachE f xs) (\<lambda>ys. Inr (y # ys)))"

text \<open>Decimal digits of an integer, as the conversion of an index to a string gives them.\<close>

fun showNat :: "nat \<Rightarrow> string" where
  "showNat n =
     (if n < 10 then [char_of (48 + n)] else showNat (n div 10) @ [char_of (48 + n mod 10)])"

declare showNat.simps [simp del]

definition showInt :: "int \<Rightarrow> string" where
  "showInt i = (if i < 0 then CHR ''-'' # showNat (nat (- i)) else showNat (nat i))"

text \<open>
  \<^verbatim>\<open>Array.prototype.sort\<close> without a comparator, on an array of integers: the elements
  are ordered by their strings, unit by unit, and equal strings keep their order.
\<close>

fun insertDefault :: "int \<Rightarrow> int list \<Rightarrow> int list" where
  "insertDefault x [] = [x]"
| "insertDefault x (y # ys) =
     (if showInt y < showInt x then y # insertDefault x ys else x # y # ys)"

fun sortDefault :: "int list \<Rightarrow> int list" where
  "sortDefault [] = []"
| "sortDefault (x # xs) = insertDefault x (sortDefault xs)"

section \<open>The group builder\<close>

text \<open>The condition under which the reduction puts a combatant into a group.\<close>

definition grouped :: "game \<Rightarrow> combatant \<Rightarrow> bool" where
  "grouped g current =
     (visible current
      \<and> \<not> (noGroupHidden g \<and> hidden current)
      \<and> \<not> (noGroupPCs g \<and> hasPlayerOwner current))"

text \<open>
  The accumulator of the reduction is a fresh object \<^verbatim>\<open>{}\<close>: its own properties, in the
  order of their creation, are an association list. Reading a property that the object
  does not own goes on to \<^verbatim>\<open>Object.prototype\<close>, whose properties have these names; each
  is a function (or, for \<^verbatim>\<open>__proto__\<close>, the prototype itself), which is truthy and cannot
  be spread into an array.
\<close>

definition objectPrototypeNames :: "string list" where
  "objectPrototypeNames =
     [''constructor'', ''__defineGetter__'', ''__defineSetter__'', ''hasOwnProperty'',
      ''__lookupGetter__'', ''__lookupSetter__'', ''isPrototypeOf'',
      ''propertyIsEnumerable'', ''toString'', ''valueOf'', ''__proto__'',
      ''toLocaleString'']"

text \<open>Assignment to an own property: a new key goes last, a present key keeps its place.\<close>

fun setProp :: "(string \<times> 'v) list \<Rightarrow> string \<Rightarrow> 'v \<Rightarrow> (string \<times> 'v) list" where
  "setProp [] k v = [(k, v)]"
| "setProp ((k', v') # kvs) k v =
     (if k' = k then (k, v) # kvs else (k', v') # setProp kvs k v)"

text \<open>The key under which the reduction files a combatant: its grouping value, as a
  property key.\<close>

definition keyOf :: "host \<Rightarrow> string \<Rightarrow> combatant \<Rightarrow> string" where
  "keyOf h path current = toStringJS h (recursiveGetPropertyAsString h (Some current) path)"

text \<open>
  One step of the reduction:
  \<^verbatim>\<open>accumulator[key] = [...accumulator[key] || [], current]\<close> for a grouped combatant.
\<close>

definition groupStep ::
  "host \<Rightarrow> game \<Rightarrow> string \<Rightarrow> (string \<times> combatant list) list \<Rightarrow> combatant
     \<Rightarrow> error + (string \<times> combatant list) list" where
  "groupStep h g path accumulator current =
     (if grouped g current then
        (let key = keyOf h path current
         in case map_of accumulator key of
              Some grp \<Rightarrow> Inr (setProp accumulator key (grp @ [current]))
            | None \<Rightarrow>
                if key \<in> set objectPrototypeNames then Inl TypeError
                else Inr (setProp accumulator key [current]))
      else Inr accumulator)"

text \<open>The reduction over the turns; a step that throws ends it.\<close>

fun reduceE :: "('b \<Rightarrow> 'a \<Rightarrow> error + 'b) \<Rightarrow> 'b \<Rightarrow> 'a list \<Rightarrow> error + 'b" where
  "reduceE f acc [] = Inr acc"
| "reduceE f acc (x # xs) = bindE (f acc x) (\<lambda>acc'. reduceE f acc' xs)"

text \<open>
  \<^verbatim>\<open>Object.values\<close>: the values of the keys that are array indices (canonical decimal
  numbers below \<open>2^32 - 1\<close>) come first, by ascending index, then the other values in the
  order of creation.
\<close>

definition digitsValue :: "string \<Rightarrow> int" where
  "digitsValue k = foldl (\<lambda>acc c. 10 * acc + (of_char c - 48)) 0 k"

definition arrayIndex :: "string \<Rightarrow> int option" where
  "arrayIndex k =
     (if k \<noteq> [] \<and> list_all (\<lambda>c. CHR ''0'' \<le> c \<and> c \<le> CHR ''9'') k
         \<and> (if hd k = CHR ''0'' then k = ''0'' else True)
         \<and> digitsValue k < 2 ^ 32 - 1
      then Some (digitsValue k) else None)"

definition indexKey :: "string \<times> 'v \<Rightarrow> int" where
  "indexKey kv = (case arrayIndex (fst kv) of None \<Rightarrow> 0 | Some n \<Rightarrow> n)"

definition objectValues :: "(string \<times> 'v) list \<Rightarrow> 'v list" where
  "objectValues kvs =
     map snd (sort_key indexKey (filter (\<lambda>kv. arrayIndex (fst kv) \<noteq> None) kvs))
     @ map snd (filter (\<lambda>kv. arrayIndex (fst kv) = None) kvs)"

text \<open>The path-based branch of \<^verbatim>\<open>Ctg.groups\<close>, before the sorts.\<close>

definition pathGroups :: "host \<Rightarrow> game \<Rightarrow> string \<Rightarrow> error + combatant list list" where
  "pathGroups h g mode =
     (case modePath g mode of
        None \<Rightarrow> Inl TypeError
      | Some path \<Rightarrow> bindE (reduceE (groupStep h g path) [] (turns g)) (\<lambda>acc. Inr (objectValues acc)))"

text \<open>
  The mob branch. The filter keeps a token identifier the first time it is met, over all
  mobs; \<^verbatim>\<open>alreadyInMob\<close> is threaded through.
\<close>

fun filterMob :: "string list \<Rightarrow> string list \<Rightarrow> string list \<times> string list" where
  "filterMob alreadyInMob [] = ([], alreadyInMob)"
| "filterMob alreadyInMob (i # ids) =
     (let already = (i \<in> set alreadyInMob);
          (kept, alreadyInMob') = filterMob (alreadyInMob @ [i]) ids
      in (if already then kept else i # kept, alreadyInMob'))"

fun filterMobs :: "string list \<Rightarrow> string list list \<Rightarrow> string list list" where
  "filterMobs alreadyInMob [] = []"
| "filterMobs alreadyInMob (mob # mobs) =
     (let (kept, alreadyInMob') = filterMob alreadyInMob mob
      in kept # filterMobs alreadyInMob' mobs)"

definition sortByTurns :: "game \<Rightarrow> combatant \<Rightarrow> combatant \<Rightarrow> error + int" where
  "sortByTurns g a b = Inr (indexOf (turns g) a - indexOf (turns g) b)"

definition mobGroups :: "game \<Rightarrow> error + combatant list list" where
  "mobGroups g =
     forEachE (\<lambda>arr. bindE (arraySort (sortByTurns g) arr) (\<lambda>sorted. Inr (List.map_filter (\<lambda>x. x) sorted)))
       (map (map (tokenCombatant g)) (filterMobs [] (hiddenMobList g)))"

text \<open>\<^verbatim>\<open>group[0]\<close>: undefined on an empty group.\<close>

fun first :: "'a list \<Rightarrow> 'a option" where
  "first [] = None"
| "first (x # xs) = Some x"

text \<open>
  \<^verbatim>\<open>Ctg.groups(mode)\<close>. For a mode that \<^verbatim>\<open>MODES\<close> does not name, the code notifies the
  user of the invalid mode and returns without a value: that is the result
  \<open>Inl (InvalidModeError mode)\<close>.
\<close>

definition groups :: "host \<Rightarrow> game \<Rightarrow> string \<Rightarrow> error + combatant list list" where
  "groups h g mode =
     (if mode \<notin> set (map fst (MODES g)) then Inl (InvalidModeError mode)
      else
        bindE (if mode = ''mob'' \<and> matActive g then mobGroups g else pathGroups h g mode)
          (\<lambda>gs. bindE (forEachE (sortBy (\<lambda>a b. sortCombatants h g (Some a) (Some b))) gs)
             (\<lambda>sorted. sortBy (\<lambda>a b. sortCombatants h g (first a) (first b)) sorted)))"

section \<open>The turn navigator\<close>

text \<open>
  The hook on \<^verbatim>\<open>preUpdateCombat\<close> reads the combat that is updated (its turns, its turn
  and the round and turn of \<^verbatim>\<open>document.current\<close>) and the requested change, whose
  fields may be absent.
\<close>

record combat =
  docTurns :: "combatant list"
  docTurn :: "int option"
  currentRound :: "int option"
  currentTurn :: "int option"

record change =
  changeTurn :: "int option"
  changeRound :: "int option"

text \<open>\<^verbatim>\<open>x > y\<close> for a number and a number or null; null counts as zero.\<close>

definition gtNullable :: "int \<Rightarrow> int option \<Rightarrow> bool" where
  "gtNullable x y = (case y of None \<Rightarrow> 0 < x | Some n \<Rightarrow> n < x)"

text \<open>
  \<^verbatim>\<open>change.round ? (change.round > document.current.round ? 1 : -1)
               : (change.turn > document.current.turn ? 1 : -1)\<close>.
  The hook computes it only when \<^verbatim>\<open>change.turn\<close> is present.
\<close>

definition turnDirection :: "combat \<Rightarrow> int \<Rightarrow> int" where
  "turnDirection document t = (if gtNullable t (currentTurn document) then 1 else -1)"

definition direction :: "combat \<Rightarrow> change \<Rightarrow> int \<Rightarrow> int" where
  "direction document chg t =
     (case changeRound chg of
        None \<Rightarrow> turnDirection document t
      | Some r \<Rightarrow>
          if r \<noteq> 0 then (if gtNullable r (currentRound document) then 1 else -1)
          else turnDirection document t)"

text \<open>
  \<^verbatim>\<open>groups.map(group => document.turns.findIndex(c => c.id === group[0].id)).sort()\<close>: the
  sort has no comparator. Reading \<^verbatim>\<open>.id\<close> of the first member of an empty group throws.
\<close>

definition firstTurns :: "combatant list \<Rightarrow> combatant list list \<Rightarrow> error + int list" where
  "firstTurns ts gs =
     bindE (forEachE (\<lambda>group. case first group of
                                 None \<Rightarrow> Inl TypeError
                               | Some c \<Rightarrow> Inr (findIndex (\<lambda>x. cid x = cid c) ts)) gs)
       (\<lambda>is. Inr (sortDefault is))"

text \<open>\<^verbatim>\<open>xs[i]\<close> is undefined outside the array, also at -1; \<^verbatim>\<open>xs.at(i)\<close> counts a
  negative \<open>i\<close> from the end.\<close>

definition elementAt :: "'a list \<Rightarrow> int \<Rightarrow> 'a option" where
  "elementAt xs i = (if 0 \<le> i \<and> i < int (length xs) then Some (xs ! nat i) else None)"

definition arrayAt :: "'a list \<Rightarrow> int \<Rightarrow> 'a option" where
  "arrayAt xs i = elementAt xs (if i < 0 then int (length xs) + i else i)"

text \<open>The position of the current turn among the first turns, or undefined.\<close>

definition indexOfCurrent :: "int list \<Rightarrow> int option \<Rightarrow> int option" where
  "indexOfCurrent ft turn =
     (case turn of
        None \<Rightarrow> None
      | Some t \<Rightarrow> if indexOf ft t \<noteq> -1 then Some (indexOf ft t) else None)"

text \<open>
  \<^verbatim>\<open>firstTurns?.[indexOfCurrent + direction] ?? firstTurns.at(direction === 1 ? 0 : -1)\<close>.
  With an undefined position the sum is NaN, and no element is found under it.
\<close>

definition nextTurn :: "int list \<Rightarrow> int option \<Rightarrow> int \<Rightarrow> int option" where
  "nextTurn ft turn dir =
     (case (case indexOfCurrent ft turn of
              None \<Rightarrow> None
            | Some i \<Rightarrow> elementAt ft (i + dir)) of
        Some t \<Rightarrow> Some t
      | None \<Rightarrow> arrayAt ft (if dir = 1 then 0 else -1))"

text \<open>
  The hook. The groups are built first; when the mode is invalid they are undefined and
  \<^verbatim>\<open>groups.length\<close> throws once the conditions before it hold.
\<close>

definition groupSkipping :: "host \<Rightarrow> game \<Rightarrow> combat \<Rightarrow> change \<Rightarrow> error + change" where
  "groupSkipping h g document chg =
     (case groups h g (modeSetting g) of
        Inl TypeError \<Rightarrow> Inl TypeError
      | Inl (InvalidModeError m) \<Rightarrow>
          (case changeTurn chg of
             None \<Rightarrow> Inr chg
           | Some t \<Rightarrow>
               if isGM g \<and> groupSkippingSetting g \<and> modeSetting g \<noteq> ''none''
               then Inl TypeError else Inr chg)
      | Inr gs \<Rightarrow>
          (case changeTurn chg of
             None \<Rightarrow> Inr chg
           | Some t \<Rightarrow>
               if isGM g \<and> groupSkippingSetting g \<and> modeSetting g \<noteq> ''none'' \<and> 1 < length gs
               then bindE (firstTurns (docTurns document) gs)
                      (\<lambda>ft. Inr (chg\<lparr>changeTurn :=
                                      nextTurn ft (docTurn document) (direction document chg t)\<rparr>))
               else Inr chg))"

section \<open>A host for the examples\<close>

text \<open>The field names of a dotted path, and the field of a value under a name.\<close>

fun splitDots :: "string \<Rightarrow> string \<Rightarrow> string list" where
  "splitDots cur [] = [cur]"
| "splitDots cur (c # cs) =
     (if c = CHR ''.'' then cur # splitDots [] cs else splitDots (cur @ [c]) cs)"

fun getField :: "jsval \<Rightarrow> string \<Rightarrow> jsval" where
  "getField (Obj fs) k = (case map_of fs k of None \<Rightarrow> Undefined | Some v \<Rightarrow> v)"
| "getField (Arr xs) k =
     (case arrayIndex k of
        None \<Rightarrow> Undefined
      | Some n \<Rightarrow> if n < int (length xs) then xs ! nat n else Undefined)"
| "getField v k = Undefined"

text \<open>The combatant as the object that a path is resolved against.\<close>

definition combatantObject :: "combatant \<Rightarrow> jsval" where
  "combatantObject c =
     Obj ([(''id'', Str (cid c)),
           (''initiative'', (case initiative c of None \<Rightarrow> Null | Some n \<Rightarrow> Num n)),
           (''visible'', Bool (visible c)),
           (''hidden'', Bool (hidden c)),
           (''hasPlayerOwner'', Bool (hasPlayerOwner c))] @ props c)"

text \<open>
  Modelled from the spec: the path resolver \<^verbatim>\<open>recursiveGetPropertyAsString\<close> of
  \<^verbatim>\<open>helpers.js\<close>, which is not among the sources. The path is a sequence of field names
  separated by dots; the resolution walks the record field by field and yields undefined
  as soon as a field is absent. It never throws.
\<close>

definition resolvePath :: "combatant option \<Rightarrow> string \<Rightarrow> jsval" where
  "resolvePath a path =
     (case a of
        None \<Rightarrow> Undefined
      | Some c \<Rightarrow> foldl getField (combatantObject c) (splitDots [] path))"

text \<open>
  The conversions of the example host. A string is read as a number when it is a decimal
  integer with an optional sign, and the empty string as zero; the examples hold no string
  in another numeric form. A finite number is printed in decimal notation, with at most
  twenty digits after the point.
\<close>

definition digitsToNumber :: "string \<Rightarrow> number" where
  "digitsToNumber s =
     (if s \<noteq> [] \<and> list_all (\<lambda>c. CHR ''0'' \<le> c \<and> c \<le> CHR ''9'') s
      then Fin (of_int (digitsValue s))
      else NaN)"

fun exampleStringToNumber :: "string \<Rightarrow> number" where
  "exampleStringToNumber [] = Fin 0"
| "exampleStringToNumber (c # cs) =
     (if c = CHR ''-'' then num_sub (Fin 0) (digitsToNumber cs)
      else if c = CHR ''+'' then digitsToNumber cs
      else digitsToNumber (c # cs))"

fun fractionDigits :: "nat \<Rightarrow> rat \<Rightarrow> string" where
  "fractionDigits 0 r = []"
| "fractionDigits (Suc n) r =
     (if r = 0 then []
      else char_of (48 + nat \<lfloor>10 * r\<rfloor>) # fractionDigits n (10 * r - of_int \<lfloor>10 * r\<rfloor>))"

definition showRat :: "rat \<Rightarrow> string" where
  "showRat r =
     (let a = \<bar>r\<bar>; whole = \<lfloor>a\<rfloor>; frac = a - of_int whole
      in (if r < 0 then [CHR ''-''] else []) @ showInt whole
         @ (if frac = 0 then [] else CHR ''.'' # fractionDigits 20 frac))"

fun showNumber :: "number \<Rightarrow> string" where
  "showNumber NaN = ''NaN''"
| "showNumber PosInf = ''Infinity''"
| "showNumber NegInf = ''-Infinity''"
| "showNumber (Fin r) = showRat r"

fun joinComma :: "string list \<Rightarrow> string" where
  "joinComma [] = []"
| "joinComma [s] = s"
| "joinComma (s # t # ss) = s @ [CHR '',''] @ joinComma (t # ss)"

fun exampleToString :: "jsval \<Rightarrow> string" where
  "exampleToString Undefined = ''undefined''"
| "exampleToString Null = ''null''"
| "exampleToString (Bool b) = (if b then ''true'' else ''false'')"
| "exampleToString (Num n) = showNumber n"
| "exampleToString (Str s) = s"
| "exampleToString (Arr xs) =
     joinComma (map (\<lambda>x. if x = Undefined \<or> x = Null then [] else exampleToString x) xs)"
| "exampleToString (Obj fs) = ''[object Object]''"

text \<open>
  \<^verbatim>\<open>Number.isNumeric\<close> as the host defines it: not an array, neither null nor the empty
  string, and a value whose conversion to a number is not NaN.
\<close>

fun exampleIsNumeric :: "jsval \<Rightarrow> bool" where
  "exampleIsNumeric Undefined = False"
| "exampleIsNumeric Null = False"
| "exampleIsNumeric (Bool b) = True"
| "exampleIsNumeric (Num n) = (n \<noteq> NaN)"
| "exampleIsNumeric (Str s) = (s \<noteq> [] \<and> exampleStringToNumber s \<noteq> NaN)"
| "exampleIsNumeric (Arr xs) = False"
| "exampleIsNumeric (Obj fs) = (exampleStringToNumber (exampleToString (Obj fs)) \<noteq> NaN)"

text \<open>
  The comparison of the example host orders strings unit by unit. A locale may order two
  different strings otherwise; two identical strings compare as 0 under every locale.
\<close>

definition exampleLocaleCompare :: "string \<Rightarrow> string \<Rightarrow> int" where
  "exampleLocaleCompare s t = (if s < t then -1 else if s = t then 0 else 1)"

definition exampleHost :: host where
  "exampleHost =
     \<lparr> recursiveGetPropertyAsString = resolvePath,
       isNumeric = exampleIsNumeric,
       stringToNumber = exampleStringToNumber,
       toStringJS = exampleToString,
       localeCompare = exampleLocaleCompare \<rparr>"

section \<open>Example combats\<close>

text \<open>
  A visible combatant without a player owner, and a game with the sorting of combatants
  enabled, the given mode selected and these modes: none, the initiative, the name, the
  group chosen by selection (a random identifier of sixteen characters stored in a
  flag), a boolean mode on the \<^verbatim>\<open>hidden\<close> field, a mode on the actor (an object), and
  the mob mode.
\<close>

definition exampleCombatant :: "string \<Rightarrow> number option \<Rightarrow> (string \<times> jsval) list \<Rightarrow> combatant" where
  "exampleCombatant i n ps =
     \<lparr> cid = i, initiative = n, visible = True, hidden = False, hasPlayerOwner = False,
       props = ps \<rparr>"

definition exampleGame :: "string \<Rightarrow> combatant list \<Rightarrow> game" where
  "exampleGame mode ts =
     \<lparr> sortCombatantsSetting = True,
       modeSetting = mode,
       MODES = [(''none'', ''''), (''initiative'', ''initiative''), (''name'', ''name''),
                (''selection'', ''flags.ctg.group''), (''hidden'', ''hidden''),
                (''actor'', ''actor''), (''mob'', '''')],
       noGroupHidden = False,
       noGroupPCs = False,
       groupSkippingSetting = True,
       isGM = True,
       turns = ts,
       matActive = False,
       hiddenMobList = [],
       tokenCombatant = (\<lambda>t. None) \<rparr>"

definition named :: "string \<Rightarrow> string \<Rightarrow> combatant" where
  "named i n = exampleCombatant i None [(''name'', Str n)]"

definition selected :: "string \<Rightarrow> rat \<Rightarrow> string \<Rightarrow> combatant" where
  "selected i n uid =
     exampleCombatant i (Some (Fin n)) [(''flags'', Obj [(''ctg'', Obj [(''group'', Str uid)])])]"

text \<open>Eleven combatants \<open>c0\<close>, ..., \<open>c10\<close>, each with a name of its own.\<close>

definition elevenTurns :: "combatant list" where
  "elevenTurns = map (\<lambda>n. named (CHR ''c'' # showNat n) (CHR ''n'' # showNat n)) [0..<11]"

text \<open>Ten combatants \<open>c0\<close>, ..., \<open>c9\<close>: five archers, four bandits and a cultist, so
  that the groups by name start at the turns 0, 5 and 9.\<close>

definition tenTurns :: "combatant list" where
  "tenTurns =
     map (\<lambda>n. named (CHR ''c'' # showNat n)
                (if n < 5 then ''Archer'' else if n < 9 then ''Bandit'' else ''Cultist''))
       [0..<10]"


section \<open>Predicates of the proofs\<close>

text \<open>
  The invariant of the reduction: the keys of the accumulator are distinct, and under each
  key stands a non-empty list of combatants that all have this key.
\<close>

definition bucketsInv :: "('a \<Rightarrow> string) \<Rightarrow> (string \<times> 'a list) list \<Rightarrow> bool" where
  "bucketsInv key acc =
     (distinct (map fst acc)
      \<and> (\<forall>kv \<in> set acc. snd kv \<noteq> [] \<and> (\<forall>c \<in> set (snd kv). key c = fst kv)))"

text \<open>
  What the groups of a partition by key look like: none is empty, the members of a group
  share their key, and different groups have different keys.
\<close>

definition partitionedBy :: "('a \<Rightarrow> string) \<Rightarrow> 'a list list \<Rightarrow> bool" where
  "partitionedBy key gs =
     ([] \<notin> set gs
      \<and> (\<forall>grp \<in> set gs. \<forall>c \<in> set grp. key c = key (hd grp))
      \<and> distinct (map (\<lambda>grp. key (hd grp)) gs))"

section \<open>The comparator: numbers\<close>

text \<open>
  The numeric branch on two finite values: the result is 1 whenever they differ, whichever
  is the greater, and the order of the identifiers when they are equal.
\<close>

lemma numeric_branch_differ:
  assumes "sortCombatantsSetting g" and "modePath g (modeSetting g) = Some path"
    and "ia = recursiveGetPropertyAsString h (Some a) path"
    and "ib = recursiveGetPropertyAsString h (Some b) path"
    and "\<not> (isBoolean ia \<and> isBoolean ib)"
    and "isNumeric h ia" and "isNumeric h ib"
    and "toNumber h ia = Fin x" and "toNumber h ib = Fin y" and "x \<noteq> y"
  shows "sortCombatants h g (Some a) (Some b) = Inr 1"
  using assms by (auto simp: sortCombatants_def Let_def)

lemma numeric_branch_tie:
  assumes "sortCombatantsSetting g" and "modePath g (modeSetting g) = Some path"
    and "ia = recursiveGetPropertyAsString h (Some a) path"
    and "ib = recursiveGetPropertyAsString h (Some b) path"
    and "\<not> (isBoolean ia \<and> isBoolean ib)"
    and "isNumeric h ia" and "isNumeric h ib"
    and "toNumber h ia = Fin x" and "toNumber h ib = Fin x"
  shows "sortCombatants h g (Some a) (Some b) = Inr (if cid b < cid a then 1 else -1)"
  using assms by (auto simp: sortCombatants_def Let_def)

text \<open>
  C1. Claim: two numeric values are ordered descending, the higher value first, and two
  equal values by ascending identifier. The code returns \<^verbatim>\<open>ci ? 1 : -1\<close> for a difference
  \<^verbatim>\<open>ci\<close> that it has just found different from zero, which is 1 whatever the sign. So
  with the values 20 (identifier A) and 10 (identifier B) the comparator answers 1 in both
  orders: asked about (A, B) it places the higher value after the lower one. On the tie
  of the claim's example (15 and 15, identifiers B and A) it answers as the claim says.
  The two lemmas above say the same of all finite values.
\<close>

theorem C1_higher_value_placed_after_lower:
  "sortCombatants exampleHost (exampleGame ''initiative'' [])
     (Some (exampleCombatant ''A'' (Some (Fin 20)) []))
     (Some (exampleCombatant ''B'' (Some (Fin 10)) [])) = Inr 1
   \<and> sortCombatants exampleHost (exampleGame ''initiative'' [])
     (Some (exampleCombatant ''B'' (Some (Fin 10)) []))
     (Some (exampleCombatant ''A'' (Some (Fin 20)) [])) = Inr 1
   \<and> sortCombatants exampleHost (exampleGame ''initiative'' [])
     (Some (exampleCombatant ''B'' (Some (Fin 15)) []))
     (Some (exampleCombatant ''A'' (Some (Fin 15)) [])) = Inr 1
   \<and> sortCombatants exampleHost (exampleGame ''initiative'' [])
     (Some (exampleCombatant ''A'' (Some (Fin 15)) []))
     (Some (exampleCombatant ''B'' (Some (Fin 15)) [])) = Inr (-1)"
  by code_simp

section \<open>The comparator: results\<close>

text \<open>
  On two combatants, when the mode of the settings has a path, every branch but the
  comparison of two strings that are no identifiers returns 1 or -1.
\<close>

lemma sortCombatants_sign:
  assumes "sortCombatantsSetting g \<longrightarrow> modePath g (modeSetting g) = Some path"
    and "ia = recursiveGetPropertyAsString h (Some a) path"
    and "ib = recursiveGetPropertyAsString h (Some b) path"
    and "\<not> (sortCombatantsSetting g \<and> isString ia \<and> isString ib
            \<and> \<not> (isNumeric h ia \<and> isNumeric h ib)
            \<and> \<not> (testId (stringOf ia) \<and> testId (stringOf ib)))"
  shows "sortCombatants h g (Some a) (Some b) = Inr 1
         \<or> sortCombatants h g (Some a) (Some b) = Inr (-1)"
proof (cases "sortCombatantsSetting g")
  case False
  then show ?thesis by (simp add: sortCombatants_def)
next
  case True
  with assms(1) have p: "modePath g (modeSetting g) = Some path" by simp
  have ns: "isString v \<Longrightarrow> \<not> isBoolean v \<and> \<not> isObject v" for v by (cases v) simp_all
  show ?thesis
  proof (cases "isString ia \<and> isString ib")
    case False
    with True p assms(2,3) show ?thesis
      by (auto simp: sortCombatants_def Let_def)
  next
    case str: True
    with ns have nb: "\<not> isBoolean ia" "\<not> isObject ia" by blast+
    show ?thesis
    proof (cases "isNumeric h ia \<and> isNumeric h ib")
      case True
      with \<open>sortCombatantsSetting g\<close> p assms(2,3) nb show ?thesis
        by (auto simp: sortCombatants_def Let_def)
    next
      case False
      with assms(4) \<open>sortCombatantsSetting g\<close> str
      have "testId (stringOf ia) \<and> testId (stringOf ib)" by blast
      with False \<open>sortCombatantsSetting g\<close> p assms(2,3) nb str show ?thesis
        by (auto simp: sortCombatants_def Let_def)
    qed
  qed
qed

text \<open>
  C8. Claim: the comparator returns only -1 or 1, never 0, also on two equal strings that
  are no identifiers. The code returns the result of \<^verbatim>\<open>ib.localeCompare(ia)\<close> as it
  is, and its own comment promises \<^verbatim>\<open>@return {1 | -1}\<close>. Two combatants of the same
  name, grouped by name, compare as 0. By \<open>sortCombatants_sign\<close> this branch is the only
  one with another result than 1 or -1.
\<close>

theorem C8_equal_names_compare_as_zero:
  "sortCombatants exampleHost (exampleGame ''name'' [])
     (Some (named ''A'' ''Goblin'')) (Some (named ''B'' ''Goblin'')) = Inr 0"
  by code_simp

section \<open>The comparator: branch by branch\<close>


lemma js_gt_numbers: "js_gt h (Num x) (Num y) = num_gt x y"
  by (simp add: js_gt_def)


text \<open>\<^verbatim>\<open>x > y\<close> and \<^verbatim>\<open>y > x\<close> never hold together: either one of them holds and the
  other does not, or neither holds.\<close>

lemma js_gt_asym: "\<not> (js_gt h x y \<and> js_gt h y x)"
  by (auto simp: js_gt_def split: prod.splits jsval.splits;
      (cases "toNumber h (toPrimitive h x)"; cases "toNumber h (toPrimitive h y)"; auto)?)





lemma string_branch:
  assumes "sortCombatantsSetting g" and "modePath g (modeSetting g) = Some path"
    and "recursiveGetPropertyAsString h (Some a) path = Str sa"
    and "recursiveGetPropertyAsString h (Some b) path = Str sb"
    and "\<not> (isNumeric h (Str sa) \<and> isNumeric h (Str sb))"
  shows "sortCombatants h g (Some a) (Some b) =
     (if testId sa \<and> testId sb
      then Inr (if js_gt h (initiativeOf (Some a)) (initiativeOf (Some b)) then 1 else -1)
      else Inr (localeCompare h sb sa))"
proof -
  have nn: "(isNumeric h (Str sa) \<and> isNumeric h (Str sb)) = False"
    using assms(5) by blast
  show ?thesis
    by (simp add: sortCombatants_def Let_def assms(1-4) nn split del: if_split cong: if_cong)
qed



lemma same_signs:
  "((Inr (if p then 1 else -1) :: error + int) = Inr (if q then 1 else -1)) = (p = q)"
  by simp

section \<open>The comparator: opposite results\<close>




section \<open>The comparator: strings\<close>

text \<open>
  C9, as stated: two strings that match the identifier pattern are ordered by the
  initiatives of their combatants, the higher initiative first. The code returns 1, which
  places the first argument after the second, when \<^verbatim>\<open>a.initiative > b.initiative\<close>: with
  the claim's identifier on both sides and the initiatives 20 and 10, the combatant with
  20 is placed after the one with 10, in both orders of the call.
\<close>

theorem C9_higher_initiative_placed_after_lower:
  "sortCombatants exampleHost (exampleGame ''selection'' [])
     (Some (selected ''A'' 20 ''aZ3kLp9QmN21xTy8'')) (Some (selected ''B'' 10 ''aZ3kLp9QmN21xTy8''))
     = Inr 1
   \<and> sortCombatants exampleHost (exampleGame ''selection'' [])
     (Some (selected ''B'' 10 ''aZ3kLp9QmN21xTy8'')) (Some (selected ''A'' 20 ''aZ3kLp9QmN21xTy8''))
     = Inr (-1)"
  by code_simp

text \<open>
  C9, amended: for two combatants whose values are both strings and not both numeric.
  When both strings hold sixteen alphanumeric characters in a row, the comparator ignores
  them and returns 1 if \<^verbatim>\<open>a.initiative > b.initiative\<close> and -1 otherwise; for two finite
  initiatives that is 1 exactly when the first is the greater, so the higher initiative is
  placed after the lower. Otherwise the result is that of \<^verbatim>\<open>ib.localeCompare(ia)\<close>, the
  comparison of the locale with its arguments reversed.
\<close>

theorem C9_identifier_strings_by_initiative:
  assumes "sortCombatantsSetting g" and "modePath g (modeSetting g) = Some path"
    and "recursiveGetPropertyAsString h (Some a) path = Str sa"
    and "recursiveGetPropertyAsString h (Some b) path = Str sb"
    and "\<not> (isNumeric h (Str sa) \<and> isNumeric h (Str sb))"
  shows
    "(testId sa \<and> testId sb \<longrightarrow>
        sortCombatants h g (Some a) (Some b)
          = Inr (if js_gt h (initiativeOf (Some a)) (initiativeOf (Some b)) then 1 else -1))
     \<and> (testId sa \<and> testId sb \<and> initiative a = Some (Fin na) \<and> initiative b = Some (Fin nb) \<longrightarrow>
        sortCombatants h g (Some a) (Some b) = Inr (if nb < na then 1 else -1))
     \<and> (\<not> (testId sa \<and> testId sb) \<longrightarrow>
        sortCombatants h g (Some a) (Some b) = Inr (localeCompare h sb sa))"
  unfolding string_branch [OF assms] by (auto simp: js_gt_numbers)

theorem C9_identifier_strings_by_initiative_witness:
  "sortCombatants exampleHost (exampleGame ''selection'' [])
     (Some (selected ''A'' 20 ''aZ3kLp9QmN21xTy8'')) (Some (selected ''B'' 10 ''bY4mNq0RnO32yUz9''))
     = Inr (if (10 :: rat) < 20 then 1 else -1)
   \<and> sortCombatants exampleHost (exampleGame ''name'' [])
     (Some (named ''A'' ''Goblin'')) (Some (named ''B'' ''Orc''))
     = Inr (localeCompare exampleHost ''Orc'' ''Goblin'')"
proof (intro conjI)
  let ?h = exampleHost
  let ?g = "exampleGame ''selection'' []"
  let ?a = "selected ''A'' 20 ''aZ3kLp9QmN21xTy8''"
  let ?b = "selected ''B'' 10 ''bY4mNq0RnO32yUz9''"
  have enabled: "sortCombatantsSetting ?g" by code_simp
  have path: "modePath ?g (modeSetting ?g) = Some ''flags.ctg.group''" by code_simp
  have ia: "recursiveGetPropertyAsString ?h (Some ?a) ''flags.ctg.group'' = Str ''aZ3kLp9QmN21xTy8''"
    by code_simp
  have ib: "recursiveGetPropertyAsString ?h (Some ?b) ''flags.ctg.group'' = Str ''bY4mNq0RnO32yUz9''"
    by code_simp
  have nn: "\<not> (isNumeric ?h (Str ''aZ3kLp9QmN21xTy8'') \<and> isNumeric ?h (Str ''bY4mNq0RnO32yUz9''))"
    by code_simp
  have ids: "testId ''aZ3kLp9QmN21xTy8'' \<and> testId ''bY4mNq0RnO32yUz9''
      \<and> initiative ?a = Some (Fin 20) \<and> initiative ?b = Some (Fin 10)"
    by code_simp
  note T = C9_identifier_strings_by_initiative [OF enabled path ia ib nn, where na = 20 and nb = 10]
  show "sortCombatants ?h ?g (Some ?a) (Some ?b) = Inr (if (10 :: rat) < 20 then 1 else -1)"
    by (rule T [THEN conjunct2, THEN conjunct1, THEN mp, OF ids])
next
  let ?h = exampleHost
  let ?g = "exampleGame ''name'' []"
  let ?a = "named ''A'' ''Goblin''"
  let ?b = "named ''B'' ''Orc''"
  have enabled: "sortCombatantsSetting ?g" by code_simp
  have path: "modePath ?g (modeSetting ?g) = Some ''name''" by code_simp
  have ia: "recursiveGetPropertyAsString ?h (Some ?a) ''name'' = Str ''Goblin''" by code_simp
  have ib: "recursiveGetPropertyAsString ?h (Some ?b) ''name'' = Str ''Orc''" by code_simp
  have nn: "\<not> (isNumeric ?h (Str ''Goblin'') \<and> isNumeric ?h (Str ''Orc''))" by code_simp
  have other: "\<not> (testId ''Goblin'' \<and> testId ''Orc'')" by code_simp
  note T = C9_identifier_strings_by_initiative [OF enabled path ia ib nn]
  show "sortCombatants ?h ?g (Some ?a) (Some ?b) = Inr (localeCompare ?h ''Orc'' ''Goblin'')"
    by (rule T [THEN conjunct2, THEN conjunct2, THEN mp, OF other])
qed

section \<open>The comparator returns on combatants\<close>

text \<open>
  A mode that \<^verbatim>\<open>MODES\<close> names has a path, and on two combatants the comparator throws
  only when sorting is enabled and the mode of the settings has none.
\<close>

lemma modePath_known:
  "mode \<in> set (map fst (MODES g)) \<Longrightarrow> \<exists>path. modePath g mode = Some path"
proof -
  assume "mode \<in> set (map fst (MODES g))"
  then obtain p where "p \<in> set (MODES g)" and "fst p = mode" by auto
  then have "find (\<lambda>p. fst p = mode) (MODES g) \<noteq> None"
    unfolding find_None_iff by blast
  then show ?thesis by (auto simp: modePath_def)
qed

lemma sortCombatants_defined:
  assumes "sortCombatantsSetting g \<longrightarrow> modePath g (modeSetting g) \<noteq> None"
  shows "\<exists>r. sortCombatants h g (Some a) (Some b) = Inr r"
proof (cases "sortCombatantsSetting g")
  case False
  then show ?thesis by (simp add: sortCombatants_def)
next
  case True
  with assms obtain path where "modePath g (modeSetting g) = Some path" by auto
  with True show ?thesis
    by (auto simp: sortCombatants_def Let_def)
qed

section \<open>Sorting keeps the elements\<close>

text \<open>
  A sort that returns has permuted its array, whatever the comparator answers, and it
  returns when the comparator does on the elements of the array.
\<close>

lemma insertBy_mset: "insertBy cmp x ys = Inr zs \<Longrightarrow> mset zs = add_mset x (mset ys)"
proof (induction ys arbitrary: zs)
  case Nil
  then show ?case by auto
next
  case (Cons y ys)
  then show ?case
    by (auto simp: bindE_def split: sum.splits if_splits)
qed

lemma sortBy_mset: "sortBy cmp xs = Inr ys \<Longrightarrow> mset ys = mset xs"
proof (induction xs arbitrary: ys)
  case Nil
  then show ?case by simp
next
  case (Cons x xs)
  then show ?case
    by (auto simp: bindE_def split: sum.splits dest: insertBy_mset)
qed

lemma insertBy_total:
  "\<forall>y \<in> set ys. \<exists>r. cmp x y = Inr r \<Longrightarrow> \<exists>zs. insertBy cmp x ys = Inr zs"
proof (induction ys)
  case Nil
  then show ?case by simp
next
  case (Cons y ys)
  then obtain r where r: "cmp x y = Inr r" by auto
  from Cons obtain zs where "insertBy cmp x ys = Inr zs" by auto
  with r show ?case by (simp add: bindE_def)
qed

lemma sortBy_total:
  "\<forall>x \<in> set xs. \<forall>y \<in> set xs. \<exists>r. cmp x y = Inr r \<Longrightarrow> \<exists>ys. sortBy cmp xs = Inr ys"
proof (induction xs)
  case Nil
  then show ?case by simp
next
  case (Cons x xs)
  then obtain ys where ys: "sortBy cmp xs = Inr ys" by auto
  then have "set ys = set xs" by (metis sortBy_mset mset_eq_setD)
  with Cons.prems have "\<forall>y \<in> set ys. \<exists>r. cmp x y = Inr r" by auto
  from insertBy_total [where cmp = cmp and x = x and ys = ys, OF this] obtain zs where "insertBy cmp x ys = Inr zs" by auto
  with ys show ?case by (simp add: bindE_def)
qed

lemma forEachE_sortBy:
  "forEachE (sortBy cmp) gs = Inr gs' \<Longrightarrow> list_all2 (\<lambda>grp grp'. mset grp' = mset grp) gs gs'"
proof (induction gs arbitrary: gs')
  case Nil
  then show ?case by simp
next
  case (Cons grp gs)
  then show ?case
    by (auto simp: bindE_def split: sum.splits dest: sortBy_mset)
qed

lemma forEachE_total:
  "\<forall>x \<in> set xs. \<exists>y. f x = Inr y \<Longrightarrow> \<exists>ys. forEachE f xs = Inr ys"
proof (induction xs)
  case Nil
  then show ?case by simp
next
  case (Cons x xs)
  then obtain y ys where "f x = Inr y" "forEachE f xs = Inr ys" by auto
  then show ?case by (simp add: bindE_def)
qed

section \<open>The group builder: the reduction\<close>

text \<open>Assignment to a property of the accumulator.\<close>

lemma setProp_absent: "map_of acc k = None \<Longrightarrow> setProp acc k v = acc @ [(k, v)]"
  by (induction acc) (auto split: if_splits)

lemma setProp_keys_present: "map_of acc k = Some old \<Longrightarrow> map fst (setProp acc k v) = map fst acc"
  by (induction acc) (auto split: if_splits)

lemma setProp_set: "set (setProp acc k v) \<subseteq> insert (k, v) (set acc)"
  by (induction acc) (auto split: if_splits)

lemma setProp_concat_present:
  "map_of acc k = Some grp
   \<Longrightarrow> mset (concat (map snd (setProp acc k (grp @ [c])))) = add_mset c (mset (concat (map snd acc)))"
  by (induction acc) (auto split: if_splits)

text \<open>The three cases of a step: a skipped combatant, a key that the accumulator owns, a new
  key.\<close>

lemma groupStep_skipped: "\<not> grouped g c \<Longrightarrow> groupStep h g path acc c = Inr acc"
  by (simp add: groupStep_def)

lemma groupStep_present:
  "grouped g c \<Longrightarrow> map_of acc (keyOf h path c) = Some grp
   \<Longrightarrow> groupStep h g path acc c = Inr (setProp acc (keyOf h path c) (grp @ [c]))"
  by (simp add: groupStep_def keyOf_def)

lemma groupStep_absent:
  "grouped g c \<Longrightarrow> map_of acc (keyOf h path c) = None
   \<Longrightarrow> groupStep h g path acc c =
       (if keyOf h path c \<in> set objectPrototypeNames then Inl TypeError
        else Inr (acc @ [(keyOf h path c, [c])]))"
  by (simp add: groupStep_def keyOf_def setProp_absent)

text \<open>A step that returns keeps the invariant and adds the combatant if it is grouped; so
  does the whole reduction.\<close>

lemma groupStep_inv:
  assumes step: "groupStep h g path acc c = Inr acc'"
    and inv: "bucketsInv (keyOf h path) acc"
  shows "bucketsInv (keyOf h path) acc'"
    and "mset (concat (map snd acc')) =
           mset (concat (map snd acc)) + mset (filter (grouped g) [c])"
proof -
  show "bucketsInv (keyOf h path) acc'"
  proof (cases "grouped g c")
    case False
    with step inv show ?thesis by (simp add: groupStep_skipped)
  next
    case True
    show ?thesis
    proof (cases "map_of acc (keyOf h path c)")
      case None
      with True step have acc': "acc' = acc @ [(keyOf h path c, [c])]"
        by (simp add: groupStep_absent split: if_splits)
      from None have "keyOf h path c \<notin> set (map fst acc)"
        by (simp add: map_of_eq_None_iff)
      with inv show ?thesis unfolding acc' bucketsInv_def by auto
    next
      case (Some grp)
      with True step have acc': "acc' = setProp acc (keyOf h path c) (grp @ [c])"
        by (simp add: groupStep_present)
      from Some have mem: "(keyOf h path c, grp) \<in> set acc" by (rule map_of_SomeD)
      with inv have grp: "\<forall>d \<in> set grp. keyOf h path d = keyOf h path c"
        unfolding bucketsInv_def by fastforce
      have keys: "map fst acc' = map fst acc"
        unfolding acc' using Some by (rule setProp_keys_present)
      have sub: "set acc' \<subseteq> insert (keyOf h path c, grp @ [c]) (set acc)"
        unfolding acc' by (rule setProp_set)
      have "snd kv \<noteq> [] \<and> (\<forall>d \<in> set (snd kv). keyOf h path d = fst kv)"
        if "kv \<in> set acc'" for kv
      proof -
        from that sub consider "kv = (keyOf h path c, grp @ [c])" | "kv \<in> set acc" by auto
        then show ?thesis
        proof cases
          case 1
          with grp show ?thesis by auto
        next
          case 2
          with inv show ?thesis unfolding bucketsInv_def by blast
        qed
      qed
      with inv keys show ?thesis unfolding bucketsInv_def by simp
    qed
  qed
next
  show "mset (concat (map snd acc')) =
          mset (concat (map snd acc)) + mset (filter (grouped g) [c])"
  proof (cases "grouped g c")
    case False
    with step show ?thesis by (simp add: groupStep_skipped)
  next
    case True
    show ?thesis
    proof (cases "map_of acc (keyOf h path c)")
      case None
      with True step show ?thesis by (auto simp: groupStep_absent split: if_splits)
    next
      case (Some grp)
      with True step show ?thesis by (auto simp: groupStep_present setProp_concat_present)
    qed
  qed
qed

lemma reduceE_inv:
  assumes "reduceE (groupStep h g path) acc cs = Inr acc'"
    and "bucketsInv (keyOf h path) acc"
  shows "bucketsInv (keyOf h path) acc'
         \<and> mset (concat (map snd acc')) =
             mset (concat (map snd acc)) + mset (filter (grouped g) cs)"
  using assms
proof (induction cs arbitrary: acc)
  case Nil
  then show ?case by simp
next
  case (Cons c cs)
  from Cons.prems(1) obtain mid where mid: "groupStep h g path acc c = Inr mid"
    and rest: "reduceE (groupStep h g path) mid cs = Inr acc'"
    by (auto simp: bindE_def split: sum.splits)
  from groupStep_inv [OF mid Cons.prems(2)]
  have inv: "bucketsInv (keyOf h path) mid"
    and ms: "mset (concat (map snd mid)) =
               mset (concat (map snd acc)) + mset (filter (grouped g) [c])"
    by auto
  from Cons.IH [OF rest inv] ms show ?case by (auto simp: ac_simps)
qed

text \<open>\<^verbatim>\<open>Object.values\<close> permutes the values, and a permutation of the groups, or of the
  members of each group, keeps the members.\<close>

lemma mset_objectValues: "mset (objectValues kvs) = mset (map snd kvs)"
proof -
  have "mset (objectValues kvs) =
          image_mset snd (filter_mset (\<lambda>kv. arrayIndex (fst kv) \<noteq> None) (mset kvs))
          + image_mset snd (filter_mset (\<lambda>kv. \<not> arrayIndex (fst kv) \<noteq> None) (mset kvs))"
    by (simp add: objectValues_def)
  also have "\<dots> = image_mset snd (mset kvs)"
    by (simp only: image_mset_union [symmetric] multiset_partition [symmetric])
  finally show ?thesis by simp
qed

lemma mset_concat_cong: "mset xss = mset yss \<Longrightarrow> mset (concat xss) = mset (concat yss)"
proof -
  assume eq: "mset xss = mset yss"
  have "mset (concat zss) = sum_mset (image_mset mset (mset zss))" for zss :: "'a list list"
    by (induction zss) simp_all
  with eq show ?thesis by simp
qed

lemma mset_concat_all2:
  "list_all2 (\<lambda>grp grp'. mset grp' = mset grp) gs gs' \<Longrightarrow> mset (concat gs') = mset (concat gs)"
  by (induction gs gs' rule: list_all2_induct) simp_all

text \<open>The invariant makes the values a partition by key, which both kinds of permutation
  keep, and in a partition by key no element is in two groups.\<close>

lemma partitionedBy_buckets:
  assumes "bucketsInv key acc"
  shows "partitionedBy key (map snd acc)"
proof -
  have hd: "key (hd (snd kv)) = fst kv" if "kv \<in> set acc" for kv
    using assms that unfolding bucketsInv_def by (cases "snd kv") auto
  then have "map (\<lambda>grp. key (hd grp)) (map snd acc) = map fst acc"
    by (simp add: map_idI)
  moreover from assms have "distinct (map fst acc)"
    unfolding bucketsInv_def by simp
  ultimately have d: "distinct (map (\<lambda>grp. key (hd grp)) (map snd acc))"
    by (simp only:)
  have s: "\<forall>grp \<in> set (map snd acc). \<forall>c \<in> set grp. key c = key (hd grp)"
    using assms hd unfolding bucketsInv_def by auto
  have n: "[] \<notin> set (map snd acc)"
    using assms unfolding bucketsInv_def by auto
  from n s d show ?thesis unfolding partitionedBy_def by (intro conjI)
qed

lemma partitionedBy_perm:
  assumes "partitionedBy key gs" and "mset gs' = mset gs"
  shows "partitionedBy key gs'"
proof -
  from assms(2) have set: "set gs' = set gs" by (rule mset_eq_setD)
  from assms(2) have "mset (map (\<lambda>grp. key (hd grp)) gs') = mset (map (\<lambda>grp. key (hd grp)) gs)"
    by simp
  then have "distinct (map (\<lambda>grp. key (hd grp)) gs') = distinct (map (\<lambda>grp. key (hd grp)) gs)"
    by (rule mset_eq_imp_distinct_iff)
  with assms(1) set show ?thesis unfolding partitionedBy_def by simp
qed

lemma same_key_perm:
  assumes "mset y = mset x" and "x \<noteq> []" and "\<forall>c \<in> set x. key c = key (hd x)"
  shows "y \<noteq> [] \<and> (\<forall>c \<in> set y. key c = key (hd y)) \<and> key (hd y) = key (hd x)"
proof -
  from assms(1) have set: "set y = set x" by (rule mset_eq_setD)
  with assms(2) have ne: "y \<noteq> []" by auto
  then have "hd y \<in> set y" by (rule hd_in_set)
  with set have "hd y \<in> set x" by blast
  with assms(3) have hd: "key (hd y) = key (hd x)" by blast
  have "key c = key (hd y)" if "c \<in> set y" for c
  proof -
    from that set have "c \<in> set x" by blast
    with assms(3) have "key c = key (hd x)" by blast
    also from hd have "\<dots> = key (hd y)" by (rule sym)
    finally show ?thesis .
  qed
  then have "\<forall>c \<in> set y. key c = key (hd y)" by blast
  with ne hd show ?thesis by blast
qed

lemma same_keys_all2:
  assumes "list_all2 (\<lambda>grp grp'. mset grp' = mset grp) gs gs'"
    and "[] \<notin> set gs"
    and "\<forall>grp \<in> set gs. \<forall>c \<in> set grp. key c = key (hd grp)"
  shows "[] \<notin> set gs' \<and> (\<forall>grp \<in> set gs'. \<forall>c \<in> set grp. key c = key (hd grp))
         \<and> map (\<lambda>grp. key (hd grp)) gs' = map (\<lambda>grp. key (hd grp)) gs"
  using assms
proof (induction gs gs' rule: list_all2_induct)
  case Nil
  show ?case by simp
next
  case (Cons x xs y ys)
  from Cons.prems(1) have x1: "x \<noteq> []" and xs1: "[] \<notin> set xs" by auto
  from Cons.prems(2) have x2: "\<forall>c \<in> set x. key c = key (hd x)"
    and xs2: "\<forall>grp \<in> set xs. \<forall>c \<in> set grp. key c = key (hd grp)"
    by (blast intro: list.set_intros)+
  from same_key_perm [OF Cons.hyps(1) x1 x2]
  have y1: "y \<noteq> []" and y2: "\<forall>c \<in> set y. key c = key (hd y)"
    and y3: "key (hd y) = key (hd x)" by blast+
  from Cons.IH [OF xs1 xs2]
  have ys1: "[] \<notin> set ys" and ys2: "\<forall>grp \<in> set ys. \<forall>c \<in> set grp. key c = key (hd grp)"
    and ys3: "map (\<lambda>grp. key (hd grp)) ys = map (\<lambda>grp. key (hd grp)) xs" by blast+
  have a: "[] \<notin> set (y # ys)" using y1 ys1 by auto
  have b: "\<forall>grp \<in> set (y # ys). \<forall>c \<in> set grp. key c = key (hd grp)"
  proof
    fix grp assume "grp \<in> set (y # ys)"
    then consider "grp = y" | "grp \<in> set ys" by auto
    then show "\<forall>c \<in> set grp. key c = key (hd grp)"
    proof cases
      case 1
      with y2 show ?thesis by blast
    next
      case 2
      with ys2 show ?thesis by blast
    qed
  qed
  have c: "map (\<lambda>grp. key (hd grp)) (y # ys) = map (\<lambda>grp. key (hd grp)) (x # xs)"
    by (simp only: list.map y3 ys3)
  from a b c show ?case by blast
qed

lemma partitionedBy_all2:
  assumes "partitionedBy key gs"
    and "list_all2 (\<lambda>grp grp'. mset grp' = mset grp) gs gs'"
  shows "partitionedBy key gs'"
proof -
  from assms(1) have n: "[] \<notin> set gs"
    and s: "\<forall>grp \<in> set gs. \<forall>c \<in> set grp. key c = key (hd grp)"
    and d: "distinct (map (\<lambda>grp. key (hd grp)) gs)"
    unfolding partitionedBy_def by blast+
  from same_keys_all2 [OF assms(2) n s]
  have n': "[] \<notin> set gs'"
    and s': "\<forall>grp \<in> set gs'. \<forall>c \<in> set grp. key c = key (hd grp)"
    and k: "map (\<lambda>grp. key (hd grp)) gs' = map (\<lambda>grp. key (hd grp)) gs"
    by blast+
  from d k have d': "distinct (map (\<lambda>grp. key (hd grp)) gs')" by (simp only:)
  from n' s' d' show ?thesis unfolding partitionedBy_def by (intro conjI)
qed

lemma partitionedBy_disjoint:
  assumes "partitionedBy key gs" and "i < length gs" and "j < length gs"
    and "c \<in> set (gs ! i)" and "c \<in> set (gs ! j)"
  shows "i = j"
proof -
  let ?ks = "map (\<lambda>grp. key (hd grp)) gs"
  from assms have "key (hd (gs ! i)) = key c" "key (hd (gs ! j)) = key c"
    unfolding partitionedBy_def by (metis nth_mem)+
  then have eq: "?ks ! i = ?ks ! j"
    using assms(2,3) by simp
  from assms(1) have d: "distinct ?ks"
    unfolding partitionedBy_def by simp
  have "i < length ?ks" "j < length ?ks" using assms(2,3) by simp_all
  with d eq show ?thesis by (simp only: nth_eq_iff_index_eq)
qed

section \<open>The group builder: partition\<close>

text \<open>
  In the path-based mode, when the builder returns, the groups hold the combatants
  that are not skipped, each as often as the turns do, no group is empty and no
  combatant is in two groups. The builder returns when no grouped combatant has an
  inherited name for its key and the comparator returns; it throws as soon as a grouped
  combatant has such a key.
\<close>

lemma pathGroups_partition:
  assumes "pathGroups h g mode = Inr gs" and "modePath g mode = Some path"
  shows "partitionedBy (keyOf h path) gs"
    and "mset (concat gs) = mset (filter (grouped g) (turns g))"
proof -
  from assms obtain acc where red: "reduceE (groupStep h g path) [] (turns g) = Inr acc"
    and gs: "gs = objectValues acc"
    by (auto simp: pathGroups_def bindE_def split: sum.splits)
  have "bucketsInv (keyOf h path) []" by (simp add: bucketsInv_def)
  from reduceE_inv [OF red this]
  have inv: "bucketsInv (keyOf h path) acc"
    and ms: "mset (concat (map snd acc)) = mset (filter (grouped g) (turns g))"
    by simp_all
  have perm: "mset gs = mset (map snd acc)" unfolding gs by (rule mset_objectValues)
  from partitionedBy_perm [OF partitionedBy_buckets [OF inv] perm]
  show "partitionedBy (keyOf h path) gs" .
  from mset_concat_cong [OF perm] ms
  show "mset (concat gs) = mset (filter (grouped g) (turns g))" by simp
qed

lemma groups_sorted_partition:
  assumes part: "partitionedBy key gs0"
    and each: "forEachE (sortBy cmp) gs0 = Inr gs1"
    and all: "sortBy cmp' gs1 = Inr gs"
  shows "partitionedBy key gs" and "mset (concat gs) = mset (concat gs0)"
proof -
  from forEachE_sortBy [OF each]
  have a2: "list_all2 (\<lambda>grp grp'. mset grp' = mset grp) gs0 gs1" .
  from sortBy_mset [OF all] have perm: "mset gs = mset gs1" .
  from partitionedBy_perm [OF partitionedBy_all2 [OF part a2] perm]
  show "partitionedBy key gs" .
  from mset_concat_cong [OF perm] mset_concat_all2 [OF a2]
  show "mset (concat gs) = mset (concat gs0)" by simp
qed

lemma groups_path_partition:
  assumes res: "groups h g mode = Inr gs" and path: "\<not> (mode = ''mob'' \<and> matActive g)"
  shows "mset (concat gs) = mset (filter (grouped g) (turns g))"
    and "[] \<notin> set gs"
    and "\<And>i j c. i < length gs \<Longrightarrow> j < length gs \<Longrightarrow> c \<in> set (gs ! i) \<Longrightarrow> c \<in> set (gs ! j)
           \<Longrightarrow> i = j"
proof -
  from res have known: "mode \<in> set (map fst (MODES g))"
    by (auto simp: groups_def split: if_splits)
  then obtain p where p: "modePath g mode = Some p" using modePath_known by blast
  from res known path obtain gs0 gs1 where gs0: "pathGroups h g mode = Inr gs0"
    and gs1: "forEachE (sortBy (\<lambda>a b. sortCombatants h g (Some a) (Some b))) gs0 = Inr gs1"
    and gs: "sortBy (\<lambda>a b. sortCombatants h g (first a) (first b)) gs1 = Inr gs"
    by (auto simp: groups_def bindE_def split: sum.splits if_splits)
  note P = pathGroups_partition [OF gs0 p]
  note S = groups_sorted_partition [OF P(1) gs1 gs]
  from S(2) P(2) show "mset (concat gs) = mset (filter (grouped g) (turns g))" by simp
  from S(1) show "[] \<notin> set gs" unfolding partitionedBy_def by blast
  fix i j c
  assume "i < length gs" "j < length gs" "c \<in> set (gs ! i)" "c \<in> set (gs ! j)"
  with S(1) show "i = j" by (rule partitionedBy_disjoint)
qed


text \<open>When the builder returns and when it throws.\<close>

lemma groupStep_total:
  assumes "grouped g c \<longrightarrow> keyOf h path c \<notin> set objectPrototypeNames"
  shows "\<exists>acc'. groupStep h g path acc c = Inr acc'"
  using assms by (auto simp: groupStep_def keyOf_def Let_def split: option.splits)

lemma reduceE_total:
  assumes "\<forall>c \<in> set cs. grouped g c \<longrightarrow> keyOf h path c \<notin> set objectPrototypeNames"
  shows "\<exists>acc'. reduceE (groupStep h g path) acc cs = Inr acc'"
  using assms
proof (induction cs arbitrary: acc)
  case Nil
  show ?case by simp
next
  case (Cons c cs)
  from Cons.prems have "grouped g c \<longrightarrow> keyOf h path c \<notin> set objectPrototypeNames" by simp
  from groupStep_total [OF this] obtain mid where mid: "groupStep h g path acc c = Inr mid"
    by blast
  from Cons.prems have "\<forall>c \<in> set cs. grouped g c \<longrightarrow> keyOf h path c \<notin> set objectPrototypeNames"
    by simp
  from Cons.IH [OF this] obtain acc' where "reduceE (groupStep h g path) mid cs = Inr acc'"
    by blast
  with mid show ?case by (simp add: bindE_def)
qed

lemma groupStep_keys:
  assumes "groupStep h g path acc c = Inr acc'"
    and "set (map fst acc) \<inter> set objectPrototypeNames = {}"
  shows "set (map fst acc') \<inter> set objectPrototypeNames = {}"
proof (cases "grouped g c")
  case False
  with assms show ?thesis by (simp add: groupStep_skipped)
next
  case True
  show ?thesis
  proof (cases "map_of acc (keyOf h path c)")
    case None
    with True assms(1) have "keyOf h path c \<notin> set objectPrototypeNames"
      and "acc' = acc @ [(keyOf h path c, [c])]"
      by (auto simp: groupStep_absent split: if_splits)
    with assms(2) show ?thesis by auto
  next
    case (Some grp)
    with True assms(1) have "acc' = setProp acc (keyOf h path c) (grp @ [c])"
      by (simp add: groupStep_present)
    with Some have "map fst acc' = map fst acc" by (simp add: setProp_keys_present)
    with assms(2) show ?thesis by simp
  qed
qed

lemma reduceE_inherited_key:
  assumes "\<exists>c \<in> set cs. grouped g c \<and> keyOf h path c \<in> set objectPrototypeNames"
    and "set (map fst acc) \<inter> set objectPrototypeNames = {}"
  shows "reduceE (groupStep h g path) acc cs = Inl TypeError"
  using assms
proof (induction cs arbitrary: acc)
  case Nil
  then show ?case by simp
next
  case (Cons c cs)
  show ?case
  proof (cases "grouped g c \<and> keyOf h path c \<in> set objectPrototypeNames")
    case True
    with Cons.prems(2) have "keyOf h path c \<notin> set (map fst acc)" by auto
    then have "map_of acc (keyOf h path c) = None" by (simp add: map_of_eq_None_iff)
    with True show ?thesis by (simp add: groupStep_absent bindE_def)
  next
    case False
    with Cons.prems(1)
    have later: "\<exists>c \<in> set cs. grouped g c \<and> keyOf h path c \<in> set objectPrototypeNames"
      by auto
    from False have "grouped g c \<longrightarrow> keyOf h path c \<notin> set objectPrototypeNames" by blast
    from groupStep_total [OF this] obtain mid where mid: "groupStep h g path acc c = Inr mid"
      by blast
    from groupStep_keys [OF mid Cons.prems(2)] Cons.IH [OF later]
    have "reduceE (groupStep h g path) mid cs = Inl TypeError" by blast
    with mid show ?thesis by (simp add: bindE_def)
  qed
qed

lemma groups_inherited_key:
  assumes known: "mode \<in> set (map fst (MODES g))"
    and pathmode: "\<not> (mode = ''mob'' \<and> matActive g)"
    and path: "modePath g mode = Some path"
    and bad: "\<exists>c \<in> set (turns g). grouped g c \<and> keyOf h path c \<in> set objectPrototypeNames"
  shows "groups h g mode = Inl TypeError"
proof -
  from reduceE_inherited_key [OF bad, of "[]"]
  have "reduceE (groupStep h g path) [] (turns g) = Inl TypeError" by simp
  with path have "pathGroups h g mode = Inl TypeError"
    by (simp add: pathGroups_def bindE_def)
  with known pathmode show ?thesis
    by (auto simp: groups_def bindE_def)
qed

lemma groups_path_total:
  assumes known: "mode \<in> set (map fst (MODES g))"
    and pathmode: "\<not> (mode = ''mob'' \<and> matActive g)"
    and path: "modePath g mode = Some path"
    and keys: "\<forall>c \<in> set (turns g). grouped g c \<longrightarrow> keyOf h path c \<notin> set objectPrototypeNames"
    and setting: "sortCombatantsSetting g \<longrightarrow> modePath g (modeSetting g) \<noteq> None"
  shows "\<exists>gs. groups h g mode = Inr gs"
proof -
  let ?cmp = "\<lambda>a b. sortCombatants h g (Some a) (Some b)"
  let ?cmp' = "\<lambda>a b. sortCombatants h g (first a) (first b)"
  from reduceE_total [OF keys] obtain acc
    where "reduceE (groupStep h g path) [] (turns g) = Inr acc" by blast
  with path have gs0: "pathGroups h g mode = Inr (objectValues acc)"
    by (simp add: pathGroups_def bindE_def)
  have "\<exists>ys. sortBy ?cmp grp = Inr ys" for grp
    by (rule sortBy_total) (simp add: sortCombatants_defined [OF setting])
  then have "\<forall>grp \<in> set (objectValues acc). \<exists>ys. sortBy ?cmp grp = Inr ys" by blast
  from forEachE_total [OF this] obtain gs1
    where gs1: "forEachE (sortBy ?cmp) (objectValues acc) = Inr gs1" by blast
  from partitionedBy_all2 [OF pathGroups_partition(1) [OF gs0 path] forEachE_sortBy [OF gs1]]
  have "[] \<notin> set gs1" unfolding partitionedBy_def by blast
  then have "\<exists>r. ?cmp' x y = Inr r" if "x \<in> set gs1" "y \<in> set gs1" for x y
    using that sortCombatants_defined [OF setting] by (cases x; cases y) auto
  then have "\<forall>x \<in> set gs1. \<forall>y \<in> set gs1. \<exists>r. ?cmp' x y = Inr r" by blast
  from sortBy_total [where cmp = ?cmp', OF this] obtain gs where "sortBy ?cmp' gs1 = Inr gs"
    by blast
  with gs0 gs1 known pathmode show ?thesis
    by (auto simp: groups_def bindE_def)
qed

section \<open>The group builder: results\<close>

text \<open>
  C3. Claim: in the path-based mode every combatant that is not skipped is in exactly one
  group. The accumulator of the reduction is a plain object, so for a combatant whose
  grouping value is the name of an inherited property, such as \<^verbatim>\<open>constructor\<close>, the
  code reads a function under the key and throws on spreading it: the call returns no
  groups, and the combatant, which is visible and not skipped, is in none. That is the
  only way in which the claim fails: \<open>groups_inherited_key\<close>, \<open>groups_path_total\<close> and
  \<open>groups_path_partition\<close> above.
\<close>

theorem C3_inherited_key_throws:
  "grouped (exampleGame ''name'' [named ''A'' ''constructor'']) (named ''A'' ''constructor'')
   \<and> groups exampleHost (exampleGame ''name'' [named ''A'' ''constructor'']) ''name''
       = Inl TypeError"
  by code_simp

text \<open>
  C10. Claim: every group that the builder returns is non-empty, in the path-based mode
  and in the mob mode. In the mob mode the code removes the tokens without a combatant
  from each mob and keeps the mob, so a mob whose only token is in no combat yields an
  empty group. The turn navigator reads \<^verbatim>\<open>group[0].id\<close> of every group, which throws on
  that group. In the path-based mode no group is empty (\<open>groups_path_partition\<close>).
\<close>

theorem C10_mob_without_combatants_is_an_empty_group:
  "groups exampleHost
     ((exampleGame ''mob'' [named ''A'' ''Goblin''])\<lparr>matActive := True, hiddenMobList := [[''token1'']]\<rparr>)
     ''mob'' = Inr [[]]
   \<and> firstTurns [named ''A'' ''Goblin''] [[]] = Inl TypeError"
  by code_simp

text \<open>
  C7. Claim: for a mode that the list of modes does not name, the builder fails with an
  invalid-mode error and returns no groups, neither whole nor partial.
\<close>

theorem C7_unknown_mode_is_refused:
  "mode \<notin> set (map fst (MODES g))
   \<Longrightarrow> groups h g mode = Inl (InvalidModeError mode) \<and> (\<forall>gs. groups h g mode \<noteq> Inr gs)"
  by (simp add: groups_def)

theorem C7_unknown_mode_is_refused_witness:
  "''faction'' \<notin> set (map fst (MODES (exampleGame ''faction'' [named ''A'' ''Goblin''])))
   \<and> groups exampleHost (exampleGame ''faction'' [named ''A'' ''Goblin'']) ''faction''
       = Inl (InvalidModeError ''faction'')"
proof -
  have unknown: "''faction'' \<notin> set (map fst (MODES (exampleGame ''faction'' [named ''A'' ''Goblin''])))"
    by (simp add: exampleGame_def)
  from C7_unknown_mode_is_refused [OF unknown]
  have "groups exampleHost (exampleGame ''faction'' [named ''A'' ''Goblin'']) ''faction''
          = Inl (InvalidModeError ''faction'')"
    by blast
  with unknown show ?thesis by blast
qed

section \<open>The turn navigator: results\<close>

text \<open>
  The sort without a comparator orders indices from 0 to 9 as numbers: their strings are
  single digits.
\<close>

lemma showInt_digit: "0 \<le> x \<Longrightarrow> x < 10 \<Longrightarrow> showInt x = [char_of (48 + nat x)]"
  by (simp add: showInt_def showNat.simps)

lemma digit_less:
  assumes "a < 10" and "b < 10"
  shows "((char_of (48 + a) :: char) < char_of (48 + b)) = (a < (b :: nat))"
  using assms by (simp add: less_char_def)

lemma showInt_less_small:
  assumes "0 \<le> x" "x < 10" "0 \<le> y" "y < 10"
  shows "(showInt y < showInt x) = (y < x)"
proof -
  have "nat y < 10" "nat x < 10" using assms by simp_all
  from digit_less [OF this] assms show ?thesis
    by (auto simp: showInt_digit)
qed

lemma insertDefault_small:
  assumes "\<forall>y \<in> set ys. 0 \<le> y \<and> y < 10" and "0 \<le> x" and "x < 10"
  shows "insertDefault x ys = insort x ys"
  using assms
proof (induction ys)
  case Nil
  show ?case by simp
next
  case (Cons y ys)
  then have "(showInt y < showInt x) = (y < x)"
    by (intro showInt_less_small) simp_all
  with Cons show ?case by auto
qed

lemma sortDefault_small:
  assumes "\<forall>x \<in> set xs. 0 \<le> x \<and> x < 10"
  shows "sortDefault xs = sort xs"
  using assms
proof (induction xs)
  case Nil
  show ?case by simp
next
  case (Cons x xs)
  then have "sortDefault xs = sort xs" by simp
  moreover from Cons.prems have "\<forall>y \<in> set (sort xs). 0 \<le> y \<and> y < 10" by simp
  ultimately show ?case using Cons.prems by (simp add: insertDefault_small)
qed

text \<open>
  C4. Claim: the first turns are the indices of the first members of the groups in
  ascending numeric order, also with indices of 10 and more. The code sorts the indices
  with \<^verbatim>\<open>sort()\<close> and no comparator, which orders numbers by their decimal strings: of
  two groups that start at the turns 2 and 10, the second comes first. With eleven
  combatants that are each a group of their own, the first turns are 0, 1, 10, 2, ..., 9,
  and the hook goes forwards from the turn 1 to the turn 10. Up to the index 9 the order
  is the numeric one (\<open>sortDefault_small\<close>).
\<close>

theorem C4_first_turns_ordered_as_strings:
  "firstTurns elevenTurns [[elevenTurns ! 2], [elevenTurns ! 10]] = Inr [10, 2]
   \<and> bindE (groups exampleHost (exampleGame ''name'' elevenTurns) ''name'')
         (firstTurns elevenTurns)
       = Inr [0, 1, 10, 2, 3, 4, 5, 6, 7, 8, 9]
   \<and> groupSkipping exampleHost (exampleGame ''name'' elevenTurns)
         \<lparr>docTurns = elevenTurns, docTurn = Some 1, currentRound = Some 1,
            currentTurn = Some 1\<rparr>
         \<lparr>changeTurn = Some 2, changeRound = None\<rparr>
       = Inr \<lparr>changeTurn = Some 10, changeRound = None\<rparr>"
  by code_simp

text \<open>Facts about the searches and the two ways of reading an element.\<close>

lemma findIndexFrom_absent: "\<forall>x \<in> set xs. \<not> p x \<Longrightarrow> findIndexFrom i p xs = -1"
  by (induction xs arbitrary: i) simp_all

lemma indexOf_absent: "t \<notin> set ft \<Longrightarrow> indexOf ft t = -1"
  by (auto simp: indexOf_def findIndex_def intro: findIndexFrom_absent)

lemma elementAt_length: "elementAt xs (int (length xs)) = None"
  by (simp add: elementAt_def)

lemma elementAt_negative: "i < 0 \<Longrightarrow> elementAt xs i = None"
  by (simp add: elementAt_def)

lemma arrayAt_first: "xs \<noteq> [] \<Longrightarrow> arrayAt xs 0 = Some (hd xs)"
  by (simp add: arrayAt_def elementAt_def hd_conv_nth)

lemma arrayAt_last: "xs \<noteq> [] \<Longrightarrow> arrayAt xs (-1) = Some (last xs)"
  by (cases xs rule: rev_cases) (simp_all add: arrayAt_def elementAt_def nth_append)

lemma nextTurn_past_end:
  assumes "ft \<noteq> []" and "indexOf ft t = int (length ft) - 1"
  shows "nextTurn ft (Some t) 1 = Some (hd ft)"
  using assms by (simp add: nextTurn_def indexOfCurrent_def elementAt_length arrayAt_first)

lemma nextTurn_before_start:
  assumes "ft \<noteq> []" and "indexOf ft t = 0"
  shows "nextTurn ft (Some t) (-1) = Some (last ft)"
  using assms by (simp add: nextTurn_def indexOfCurrent_def elementAt_negative arrayAt_last)

lemma nextTurn_mid_group:
  assumes "ft \<noteq> []" and "t \<notin> set ft"
  shows "nextTurn ft (Some t) 1 = Some (hd ft)" and "nextTurn ft (Some t) (-1) = Some (last ft)"
  using assms by (simp_all add: nextTurn_def indexOfCurrent_def indexOf_absent arrayAt_first arrayAt_last)

text \<open>
  C5. Claim: the navigator wraps at the ends of the list. When the current turn is the
  last entry of the first turns and the direction is +1, the next turn is the first
  entry; when it is the first entry and the direction is -1, the next turn is the last
  entry. With the first turns 0, 5 and 9: from 9 forwards to 0, from 0 backwards to 9.
\<close>

theorem C5_nextTurn_wraps:
  "(ft \<noteq> [] \<and> indexOf ft t = int (length ft) - 1 \<longrightarrow> nextTurn ft (Some t) 1 = Some (hd ft))
   \<and> (ft \<noteq> [] \<and> indexOf ft t = 0 \<longrightarrow> nextTurn ft (Some t) (-1) = Some (last ft))
   \<and> nextTurn [0, 5, 9] (Some 9) 1 = Some 0
   \<and> nextTurn [0, 5, 9] (Some 0) (-1) = Some 9"
proof (intro conjI impI)
  show "nextTurn [0, 5, 9] (Some 9) 1 = Some 0" by code_simp
  show "nextTurn [0, 5, 9] (Some 0) (-1) = Some 9" by code_simp
qed (auto intro: nextTurn_past_end nextTurn_before_start)

theorem C5_nextTurn_wraps_witness:
  "indexOf [0, 5, 9 :: int] 9 = int (length [0, 5, 9 :: int]) - 1
   \<and> nextTurn [0, 5, 9] (Some 9) 1 = Some (hd [0, 5, 9])
   \<and> indexOf [0, 5, 9] (0 :: int) = 0
   \<and> nextTurn [0, 5, 9] (Some 0) (-1) = Some (last [0, 5, 9])"
proof -
  have ne: "[0, 5, 9 :: int] \<noteq> []" by simp
  have i9: "indexOf [0, 5, 9 :: int] 9 = int (length [0, 5, 9 :: int]) - 1" by code_simp
  have i0: "indexOf [0, 5, 9] (0 :: int) = 0" by code_simp
  from C5_nextTurn_wraps [of "[0, 5, 9]" 9] ne i9
  have up: "nextTurn [0, 5, 9] (Some 9) 1 = Some (hd [0, 5, 9])" by blast
  from C5_nextTurn_wraps [of "[0, 5, 9]" 0] ne i0
  have down: "nextTurn [0, 5, 9] (Some 0) (-1) = Some (last [0, 5, 9])" by blast
  from i9 up i0 down show ?thesis by blast
qed

text \<open>
  C6. Claim: when the current turn is none of the first turns, the navigator goes to the
  first entry with the direction +1 and to the last entry with the direction -1. With
  the first turns 0, 5 and 9 and the current turn 3: forwards to 0, backwards to 9.
\<close>

theorem C6_nextTurn_anchors_mid_group:
  "(ft \<noteq> [] \<and> t \<notin> set ft
      \<longrightarrow> nextTurn ft (Some t) 1 = Some (hd ft) \<and> nextTurn ft (Some t) (-1) = Some (last ft))
   \<and> nextTurn [0, 5, 9] (Some 3) 1 = Some 0
   \<and> nextTurn [0, 5, 9] (Some 3) (-1) = Some 9"
proof (intro conjI impI)
  show "nextTurn [0, 5, 9] (Some 3) 1 = Some 0" by code_simp
  show "nextTurn [0, 5, 9] (Some 3) (-1) = Some 9" by code_simp
qed (auto intro: nextTurn_mid_group)

theorem C6_nextTurn_anchors_mid_group_witness:
  "(3 :: int) \<notin> set [0, 5, 9]
   \<and> nextTurn [0, 5, 9] (Some 3) 1 = Some (hd [0, 5, 9])
   \<and> nextTurn [0, 5, 9] (Some 3) (-1) = Some (last [0, 5, 9])"
proof -
  have ne: "[0, 5, 9 :: int] \<noteq> []" by simp
  have mid: "(3 :: int) \<notin> set [0, 5, 9]" by simp
  from C6_nextTurn_anchors_mid_group [of "[0, 5, 9]" 3] ne mid
  have "nextTurn [0, 5, 9] (Some 3) 1 = Some (hd [0, 5, 9])
        \<and> nextTurn [0, 5, 9] (Some 3) (-1) = Some (last [0, 5, 9])" by blast
  with mid show ?thesis by blast
qed

text \<open>
  The hook as a whole on the ten combatants grouped by name, whose first turns are 0, 5
  and 9: from the turn 9 with the round advancing to 0, from the turn 0 with the round
  going back to 9, and from the turn 3, inside the first group, forwards to 0.
\<close>

lemma groupSkipping_examples:
  "groupSkipping exampleHost (exampleGame ''name'' tenTurns)
     \<lparr>docTurns = tenTurns, docTurn = Some 9, currentRound = Some 1, currentTurn = Some 9\<rparr>
     \<lparr>changeTurn = Some 0, changeRound = Some 2\<rparr>
     = Inr \<lparr>changeTurn = Some 0, changeRound = Some 2\<rparr>"
  "groupSkipping exampleHost (exampleGame ''name'' tenTurns)
     \<lparr>docTurns = tenTurns, docTurn = Some 0, currentRound = Some 2, currentTurn = Some 0\<rparr>
     \<lparr>changeTurn = Some 9, changeRound = Some 1\<rparr>
     = Inr \<lparr>changeTurn = Some 9, changeRound = Some 1\<rparr>"
  "groupSkipping exampleHost (exampleGame ''name'' tenTurns)
     \<lparr>docTurns = tenTurns, docTurn = Some 3, currentRound = Some 2, currentTurn = Some 3\<rparr>
     \<lparr>changeTurn = Some 4, changeRound = None\<rparr>
     = Inr \<lparr>changeTurn = Some 0, changeRound = None\<rparr>"
  by code_simp+

end
